theory Spec2Isabelle
  imports Complex_Main
begin

section \<open>Riemann sums of the integration visualisation script\<close>

text \<open>
  The script \<^verbatim>\<open>intg.py\<close> reads a function text, two bounds, a subdivision count and
  a method, turns the text into a numpy callable (lines 24 to 32) and computes the
  partition, the heights, the areas, their running sums and the total (lines 35 to 49).

  Python floats are modelled as \<^typ>\<open>real\<close>: every statement below is about exact
  arithmetic, rounding is not part of the model. The slider value \<^verbatim>\<open>n\<close> is a Python
  \<^verbatim>\<open>int\<close>, modelled as \<^typ>\<open>int\<close>.
\<close>

subsection \<open>Exceptions and numpy values\<close>

datatype py_error =
  SympifyError | TypeError | NameError | ValueError | ZeroDivisionError | IndexError

text \<open>
  What a numpy expression evaluates to in this script: a scalar, or an array of one
  dimension.
\<close>

datatype ndarray = Scalar real | Array "real list"

text \<open>A Python callable taking an array: it returns a numpy value or raises.\<close>

type_synonym callable = "real list \<Rightarrow> py_error + ndarray"

datatype integration_method = Left | Right | Midpoint | Trapezoid

text \<open>
  Elementwise binary operations of numpy with broadcasting: a scalar combines with every
  entry, arrays of equal length combine entry by entry, an array of length one is
  stretched, and any other pair of lengths raises \<^verbatim>\<open>ValueError\<close>.
\<close>

fun broadcast :: "(real \<Rightarrow> real \<Rightarrow> real) \<Rightarrow> ndarray \<Rightarrow> ndarray \<Rightarrow> py_error + ndarray" where
  "broadcast g (Scalar u) (Scalar v) = Inr (Scalar (g u v))"
| "broadcast g (Scalar u) (Array vs) = Inr (Array (map (\<lambda>v. g u v) vs))"
| "broadcast g (Array us) (Scalar v) = Inr (Array (map (\<lambda>u. g u v) us))"
| "broadcast g (Array us) (Array vs) =
     (if length us = length vs then Inr (Array (map2 g us vs))
      else if length us = 1 then Inr (Array (map (\<lambda>v. g (hd us) v) vs))
      else if length vs = 1 then Inr (Array (map (\<lambda>u. g u (hd vs)) us))
      else Inl ValueError)"

text \<open>A numpy value combined with a Python number on the right: \<^verbatim>\<open>v / 2\<close>, \<^verbatim>\<open>v * dx\<close>.\<close>

fun nd_map :: "(real \<Rightarrow> real) \<Rightarrow> ndarray \<Rightarrow> ndarray" where
  "nd_map g (Scalar u) = Scalar (g u)"
| "nd_map g (Array us) = Array (map g us)"

text \<open>
  \<^verbatim>\<open>np.cumsum\<close>: the first entry is kept, every later entry is added to the running
  sum before it. A scalar is treated as an array of one entry.
\<close>

fun cumsum_from :: "real \<Rightarrow> real list \<Rightarrow> real list" where
  "cumsum_from acc [] = []"
| "cumsum_from acc (v # vs) = (acc + v) # cumsum_from (acc + v) vs"

fun cumsum_list :: "real list \<Rightarrow> real list" where
  "cumsum_list [] = []"
| "cumsum_list (v # vs) = v # cumsum_from v vs"

fun cumsum :: "ndarray \<Rightarrow> real list" where
  "cumsum (Scalar u) = [u]"
| "cumsum (Array us) = cumsum_list us"

text \<open>\<^verbatim>\<open>xs[-1]\<close>: the last entry, \<^verbatim>\<open>IndexError\<close> on an empty array.\<close>

definition last_entry :: "real list \<Rightarrow> py_error + real" where
  "last_entry xs = (if xs = [] then Inl IndexError else Inr (last xs))"

text \<open>
  \<^verbatim>\<open>np.linspace(start, stop, num)\<close> with the end point included. A negative \<^verbatim>\<open>num\<close>
  raises \<^verbatim>\<open>ValueError\<close>. Otherwise the samples are \<^verbatim>\<open>arange(num) * step + start\<close>
  with \<^verbatim>\<open>step = (stop - start) / (num - 1)\<close>; when the step is zero, or \<^verbatim>\<open>num\<close> is
  one, numpy multiplies by the difference instead; with more than one sample the last
  one is overwritten by \<^verbatim>\<open>stop\<close>.
\<close>

definition linspace :: "real \<Rightarrow> real \<Rightarrow> int \<Rightarrow> py_error + real list" where
  "linspace start stop num =
     (if num < 0 then Inl ValueError
      else
        let m = nat num;
            dv = num - 1;
            delta = stop - start;
            idx = map real [0..<m];
            y = (if 0 < dv then
                   (let step = delta / of_int dv
                    in if step = 0 then map (\<lambda>i. i / of_int dv * delta) idx
                       else map (\<lambda>i. i * step) idx)
                 else map (\<lambda>i. i * delta) idx);
            y' = map (\<lambda>v. v + start) y
        in Inr (if 1 < m then butlast y' @ [stop] else y'))"

text \<open>Python's true division of a float by an int.\<close>

definition py_div :: "real \<Rightarrow> int \<Rightarrow> py_error + real" where
  "py_div u k = (if k = 0 then Inl ZeroDivisionError else Inr (u / of_int k))"

subsection \<open>The calculations block\<close>

record result =
  x_vals :: "real list"
  dx :: real
  heights :: ndarray
  areas :: ndarray
  cumulative :: "real list"
  total_integral :: real

text \<open>Lines 38 to 45: the heights, by method.\<close>

fun heights_of :: "callable \<Rightarrow> integration_method \<Rightarrow> real list \<Rightarrow> py_error + ndarray" where
  "heights_of f Left xs = f (butlast xs)"
| "heights_of f Right xs = f (tl xs)"
| "heights_of f Midpoint xs = f (map2 (\<lambda>l r. (l + r) / 2) (butlast xs) (tl xs))"
| "heights_of f Trapezoid xs =
     (case f (butlast xs) of
        Inl e \<Rightarrow> Inl e
      | Inr hl \<Rightarrow>
          (case f (tl xs) of
             Inl e \<Rightarrow> Inl e
           | Inr hr \<Rightarrow>
               (case broadcast (+) hl hr of
                  Inl e \<Rightarrow> Inl e
                | Inr s \<Rightarrow> Inr (nd_map (\<lambda>v. v / 2) s))))"

text \<open>Lines 35 to 49, statement by statement; the first exception ends the run.\<close>

definition calculations :: "callable \<Rightarrow> real \<Rightarrow> real \<Rightarrow> int \<Rightarrow> integration_method \<Rightarrow> py_error + result" where
  "calculations f a b n m =
     (case linspace a b (n + 1) of
        Inl e \<Rightarrow> Inl e
      | Inr xs \<Rightarrow>
          (case py_div (b - a) n of
             Inl e \<Rightarrow> Inl e
           | Inr d \<Rightarrow>
               (case heights_of f m xs of
                  Inl e \<Rightarrow> Inl e
                | Inr hs \<Rightarrow>
                    (let ar = nd_map (\<lambda>h. h * d) hs;
                         cum = cumsum ar
                     in case last_entry cum of
                          Inl e \<Rightarrow> Inl e
                        | Inr t \<Rightarrow>
                            Inr \<lparr>x_vals = xs, dx = d, heights = hs, areas = ar,
                                 cumulative = cum, total_integral = t\<rparr>))))"

text \<open>
  A callable that evaluates a real function entry by entry and keeps the shape of its
  argument: the numeric function the summation expects.
\<close>

definition vectorized :: "(real \<Rightarrow> real) \<Rightarrow> callable" where
  "vectorized g = (\<lambda>xs. Inr (Array (map g xs)))"


subsection \<open>The slider\<close>

text \<open>
  Line 19: \<^verbatim>\<open>st.slider(..., min_value=1, max_value=500, value=10)\<close>. The widget only
  returns values between its two bounds.
\<close>

definition slider :: "int \<Rightarrow> int \<Rightarrow> int \<Rightarrow> bool" where
  "slider min_value max_value v = (min_value \<le> v \<and> v \<le> max_value)"

subsection \<open>Parsing and normalisation\<close>

text \<open>
  Lines 24 to 32. The parser of \<^verbatim>\<open>sp.sympify\<close> is a library: what it does on the
  text is an input of the model, either an expression or the exception it raised. The
  expressions are the fragment built from symbols, numbers, sums, products and powers
  with a natural exponent.
\<close>

datatype expr =
  Symbol string | Number real | Add expr expr | Mul expr expr | Pow expr nat

text \<open>
  \<^verbatim>\<open>sp.lambdify(x, func_sympy, modules=["numpy"])\<close> prints the expression as the body
  of a Python function of the one argument \<^verbatim>\<open>x\<close>. Calling the function evaluates the
  body, left operand first: the argument's name is bound to the array, a number is a
  Python scalar, and any other name is not bound, so reading it raises
  \<^verbatim>\<open>NameError\<close>.
\<close>

fun evaluate :: "string \<Rightarrow> expr \<Rightarrow> real list \<Rightarrow> py_error + ndarray" where
  "evaluate arg (Symbol s) xs = (if s = arg then Inr (Array xs) else Inl NameError)"
| "evaluate arg (Number c) xs = Inr (Scalar c)"
| "evaluate arg (Add u v) xs =
     (case evaluate arg u xs of
        Inl e \<Rightarrow> Inl e
      | Inr p \<Rightarrow> (case evaluate arg v xs of Inl e \<Rightarrow> Inl e | Inr q \<Rightarrow> broadcast (+) p q))"
| "evaluate arg (Mul u v) xs =
     (case evaluate arg u xs of
        Inl e \<Rightarrow> Inl e
      | Inr p \<Rightarrow> (case evaluate arg v xs of Inl e \<Rightarrow> Inl e | Inr q \<Rightarrow> broadcast (*) p q))"
| "evaluate arg (Pow u k) xs =
     (case evaluate arg u xs of Inl e \<Rightarrow> Inl e | Inr p \<Rightarrow> Inr (nd_map (\<lambda>v. v ^ k) p))"

definition lambdify :: "string \<Rightarrow> expr \<Rightarrow> callable" where
  "lambdify arg e = (\<lambda>xs. evaluate arg e xs)"

text \<open>Line 32: \<^verbatim>\<open>lambda x: np.zeros_like(x)\<close>, an array of zeros of the argument's shape.\<close>

definition zeros_like :: callable where
  "zeros_like = (\<lambda>xs. Inr (Array (map (\<lambda>_. 0) xs)))"

text \<open>
  The \<^verbatim>\<open>try\<close> statement: the expression is lambdified; \<^verbatim>\<open>SympifyError\<close> and
  \<^verbatim>\<open>TypeError\<close> are caught and replaced by the zero function; any other exception
  leaves the script.
\<close>

definition f_lambdified :: "py_error + expr \<Rightarrow> py_error + callable" where
  "f_lambdified sympified =
     (case sympified of
        Inr func_sympy \<Rightarrow> Inr (lambdify ''x'' func_sympy)
      | Inl e \<Rightarrow> if e = SympifyError \<or> e = TypeError then Inr zeros_like else Inl e)"

text \<open>Lines 24 to 49 in sequence.\<close>

definition script :: "py_error + expr \<Rightarrow> real \<Rightarrow> real \<Rightarrow> int \<Rightarrow> integration_method \<Rightarrow> py_error + result" where
  "script sympified a b n m =
     (case f_lambdified sympified of
        Inl e \<Rightarrow> Inl e
      | Inr f \<Rightarrow> calculations f a b n m)"

subsection \<open>The specification's table of heights\<close>

text \<open>
  The height of subinterval \<open>i\<close> as the specification's table gives it, from the
  partition \<open>xs\<close>: the left end, the right end, the midpoint, or the mean of the values
  at the two ends.
\<close>

fun spec_height :: "(real \<Rightarrow> real) \<Rightarrow> integration_method \<Rightarrow> real list \<Rightarrow> nat \<Rightarrow> real" where
  "spec_height g Left xs i = g (xs ! i)"
| "spec_height g Right xs i = g (xs ! (i + 1))"
| "spec_height g Midpoint xs i = g ((xs ! i + xs ! (i + 1)) / 2)"
| "spec_height g Trapezoid xs i = (g (xs ! i) + g (xs ! (i + 1))) / 2"

subsection \<open>Closed forms\<close>

text \<open>The abscissa \<open>a + i \<cdot> (b - a) / n\<close>.\<close>

definition grid :: "real \<Rightarrow> real \<Rightarrow> int \<Rightarrow> nat \<Rightarrow> real" where
  "grid a b n i = a + real i * ((b - a) / of_int n)"

text \<open>The heights array of a vectorised callable, as a list.\<close>

fun heights_list :: "(real \<Rightarrow> real) \<Rightarrow> integration_method \<Rightarrow> real list \<Rightarrow> real list" where
  "heights_list g Left xs = map g (butlast xs)"
| "heights_list g Right xs = map g (tl xs)"
| "heights_list g Midpoint xs = map g (map2 (\<lambda>l r. (l + r) / 2) (butlast xs) (tl xs))"
| "heights_list g Trapezoid xs =
     map (\<lambda>v. v / 2) (map2 (+) (map g (butlast xs)) (map g (tl xs)))"

section \<open>Auxiliary facts\<close>

subsection \<open>The partition\<close>

lemma grid_last: "1 \<le> n \<Longrightarrow> grid a b n (nat n) = b"
  by (simp add: grid_def)

lemma butlast_map_upt: "butlast (map g [0..<Suc k]) = map g [0..<k]"
  by (simp add: butlast_append)

lemma linspace_samples:
  assumes "1 \<le> n"
  shows "(let dv = n; delta = b - a; idx = map real [0..<Suc (nat n)] in
          map (\<lambda>v. v + a)
            (if 0 < dv then
               (let step = delta / of_int dv
                in if step = 0 then map (\<lambda>i. i / of_int dv * delta) idx
                   else map (\<lambda>i. i * step) idx)
             else map (\<lambda>i. i * delta) idx))
         = map (grid a b n) [0..<Suc (nat n)]"
proof (cases "b = a")
  case True
  then show ?thesis using assms by (simp add: grid_def Let_def del: upt_Suc)
next
  case False
  then have "(b - a) / of_int n \<noteq> 0" using assms by simp
  then show ?thesis using assms
    by (simp add: grid_def Let_def add.commute del: upt_Suc)
qed

lemma linspace_grid:
  assumes "1 \<le> n"
  shows "linspace a b (n + 1) = Inr (map (grid a b n) [0..<Suc (nat n)])"
proof -
  have m: "nat (n + 1) = Suc (nat n)" using assms by simp
  have l: "map (grid a b n) [0..<Suc (nat n)] = map (grid a b n) [0..<nat n] @ [b]"
    using grid_last[OF assms, of a b] by simp
  have "linspace a b (n + 1) = Inr (butlast (map (grid a b n) [0..<Suc (nat n)]) @ [b])"
    using assms linspace_samples[OF assms, of b a] unfolding linspace_def m
    by (simp add: Let_def del: upt_Suc)
  then show ?thesis using l by (simp add: butlast_map_upt del: upt_Suc)
qed

subsection \<open>Running sums\<close>

lemma length_cumsum_from: "length (cumsum_from acc vs) = length vs"
  by (induction vs arbitrary: acc) simp_all

lemma length_cumsum_list: "length (cumsum_list vs) = length vs"
  by (cases vs) (simp_all add: length_cumsum_from)

lemma cumsum_from_nth:
  "i < length vs \<Longrightarrow> cumsum_from acc vs ! i = acc + sum_list (take (Suc i) vs)"
proof (induction vs arbitrary: acc i)
  case Nil
  then show ?case by simp
next
  case (Cons v vs)
  show ?case
  proof (cases i)
    case 0
    then show ?thesis by simp
  next
    case (Suc j)
    with Cons.prems have "j < length vs" by simp
    from Cons.IH[OF this, of "acc + v"] Suc show ?thesis by simp
  qed
qed

lemma cumsum_list_nth:
  assumes "i < length vs"
  shows "cumsum_list vs ! i = sum_list (take (Suc i) vs)"
proof (cases vs)
  case Nil
  with assms show ?thesis by simp
next
  case (Cons v ws)
  with assms show ?thesis by (cases i) (simp_all add: cumsum_from_nth)
qed

lemma cumsum_list_0: "vs \<noteq> [] \<Longrightarrow> cumsum_list vs ! 0 = vs ! 0"
  by (cases vs) simp_all

lemma cumsum_list_Suc:
  assumes "Suc i < length vs"
  shows "cumsum_list vs ! Suc i = cumsum_list vs ! i + vs ! Suc i"
proof -
  have "take (Suc (Suc i)) vs = take (Suc i) vs @ [vs ! Suc i]"
    using assms by (simp add: take_Suc_conv_app_nth)
  then show ?thesis using assms by (simp add: cumsum_list_nth)
qed

lemma last_cumsum_list:
  assumes "vs \<noteq> []"
  shows "last (cumsum_list vs) = sum_list vs"
proof -
  from assms have "cumsum_list vs \<noteq> []" by (cases vs) simp_all
  then have "last (cumsum_list vs) = cumsum_list vs ! (length vs - 1)"
    by (simp add: last_conv_nth length_cumsum_list)
  also have "\<dots> = sum_list (take (Suc (length vs - 1)) vs)"
    using assms by (intro cumsum_list_nth) simp
  finally show ?thesis using assms by simp
qed

subsection \<open>The block on a vectorised callable\<close>

lemma heights_of_vectorized:
  "heights_of (vectorized g) m xs = Inr (Array (heights_list g m xs))"
  by (cases m) (simp_all add: vectorized_def)

lemma length_heights_list: "length (heights_list g m xs) = length xs - 1"
  by (cases m) simp_all

lemma calculations_vectorized:
  assumes "1 \<le> n"
  shows "calculations (vectorized g) a b n m =
     Inr \<lparr>x_vals = map (grid a b n) [0..<Suc (nat n)],
          dx = (b - a) / of_int n,
          heights = Array (heights_list g m (map (grid a b n) [0..<Suc (nat n)])),
          areas = Array (map (\<lambda>h. h * ((b - a) / of_int n))
                    (heights_list g m (map (grid a b n) [0..<Suc (nat n)]))),
          cumulative = cumsum_list (map (\<lambda>h. h * ((b - a) / of_int n))
                    (heights_list g m (map (grid a b n) [0..<Suc (nat n)]))),
          total_integral = sum_list (map (\<lambda>h. h * ((b - a) / of_int n))
                    (heights_list g m (map (grid a b n) [0..<Suc (nat n)])))\<rparr>"
proof -
  let ?xs = "map (grid a b n) [0..<Suc (nat n)]"
  let ?ar = "map (\<lambda>h. h * ((b - a) / of_int n)) (heights_list g m ?xs)"
  have len: "length ?ar = nat n" by (simp add: length_heights_list del: upt_Suc)
  then have ne: "?ar \<noteq> []" using assms by auto
  then have c: "cumsum_list ?ar \<noteq> []"
    using length_cumsum_list[of ?ar] by auto
  have d: "py_div (b - a) n = Inr ((b - a) / of_int n)"
    using assms by (simp add: py_div_def)
  have l: "last_entry (cumsum_list ?ar) = Inr (sum_list ?ar)"
    using c last_cumsum_list[OF ne] by (simp add: last_entry_def)
  show ?thesis
    unfolding calculations_def linspace_grid[OF assms] d heights_of_vectorized
    using l by (simp add: Let_def del: upt_Suc)
qed

lemma heights_list_nth:
  assumes "length xs = Suc k" and "i < k"
  shows "heights_list g m xs ! i = spec_height g m xs i"
proof -
  have b: "butlast xs ! i = xs ! i" using assms by (simp add: nth_butlast)
  have t: "tl xs ! i = xs ! Suc i" using assms by (simp add: nth_tl)
  show ?thesis using assms b t by (cases m) simp_all
qed

text \<open>The default expression \<^verbatim>\<open>x**2\<close> on \<open>[0, 4]\<close> with two trapezoids.\<close>

lemma trapezoid_example:
  "calculations (vectorized (\<lambda>x. x ^ 2)) 0 4 2 Trapezoid
     = Inr \<lparr>x_vals = [0, 2, 4], dx = 2, heights = Array [2, 10], areas = Array [4, 20],
            cumulative = [4, 24], total_integral = 24\<rparr>"
  by (simp add: calculations_def linspace_def py_div_def vectorized_def last_entry_def
      Let_def upt_conv_Cons)

lemma grid_strict_mono:
  assumes "1 \<le> n" and "a < b" and "i < j"
  shows "grid a b n i < grid a b n j"
proof -
  define d where "d = (b - a) / of_int n"
  have "0 < d" using assms(1,2) by (simp add: d_def)
  moreover have "real i < real j" using assms(3) by simp
  ultimately have "real i * d < real j * d" by (rule mult_strict_right_mono[rotated])
  then show ?thesis by (simp add: grid_def d_def)
qed

lemma grid_strict_antimono:
  assumes "1 \<le> n" and "b < a" and "i < j"
  shows "grid a b n j < grid a b n i"
proof -
  define d where "d = (b - a) / of_int n"
  have "d < 0" using assms(1,2) by (simp add: d_def divide_neg_pos)
  moreover have "real i < real j" using assms(3) by simp
  ultimately have "real j * d < real i * d" by (rule mult_strict_right_mono_neg[rotated])
  then show ?thesis by (simp add: grid_def d_def)
qed

lemma sorted_wrt_map_upt:
  assumes "\<And>i j. i < j \<Longrightarrow> P (g i) (g j)"
  shows "sorted_wrt P (map g [0..<k])"
proof -
  have "sorted_wrt (\<lambda>i j. P (g i) (g j)) [0..<k]"
    by (rule sorted_wrt_mono_rel[OF _ sorted_wrt_upt]) (simp add: assms)
  then show ?thesis by (simp add: sorted_wrt_map)
qed

lemma linspace_examples:
  "linspace 0 4 (2 + 1) = Inr [0, 2, 4]"
  "linspace 4 0 (2 + 1) = Inr [4, 2, 0]"
  "linspace 1 1 (2 + 1) = Inr [1, 1, 1]"
  by (simp_all add: linspace_def Let_def upt_conv_Cons)

lemma sum_list_scaled: "sum_list (map (\<lambda>h. h * d) hs) = d * sum_list (hs::real list)"
  by (induction hs) (simp_all add: algebra_simps)


lemma sum_list_all_zero: "(\<And>v. v \<in> set vs \<Longrightarrow> v = 0) \<Longrightarrow> sum_list (vs::real list) = 0"
  by (induction vs) simp_all

lemma sum_list_map2_add:
  "length us = length vs \<Longrightarrow> sum_list (map2 (+) us vs) = sum_list us + sum_list (vs::real list)"
  by (induction us vs rule: list_induct2) simp_all

lemma sum_list_halved: "sum_list (map (\<lambda>v. v / 2) vs) = sum_list (vs::real list) / 2"
  by (induction vs) (simp_all add: add_divide_distrib)

lemma left_right_examples:
  "calculations (vectorized (\<lambda>x. x ^ 2)) 0 4 2 Left
     = Inr \<lparr>x_vals = [0, 2, 4], dx = 2, heights = Array [0, 4], areas = Array [0, 8],
            cumulative = [0, 8], total_integral = 8\<rparr>"
  "calculations (vectorized (\<lambda>x. x ^ 2)) 0 4 2 Right
     = Inr \<lparr>x_vals = [0, 2, 4], dx = 2, heights = Array [4, 16], areas = Array [8, 32],
            cumulative = [8, 40], total_integral = 40\<rparr>"
  by (simp_all add: calculations_def linspace_def py_div_def vectorized_def last_entry_def
      Let_def upt_conv_Cons)

lemma linspace_one_sample: "linspace a b (0 + 1) = Inr [a]"
  by (simp add: linspace_def Let_def)

lemma calculations_n_zero: "calculations f a b 0 m = Inl ZeroDivisionError"
  by (simp add: calculations_def linspace_def py_div_def Let_def)

lemma zeros_like_vectorized: "zeros_like = vectorized (\<lambda>_. 0)"
  by (simp add: zeros_like_def vectorized_def)

lemma heights_list_zero: "v \<in> set (heights_list (\<lambda>_. 0) m xs) \<Longrightarrow> v = 0"
  by (cases m) (auto simp: set_zip)


section \<open>The claims\<close>

text \<open>
  C1. For a vectorised function \<open>g\<close>, bounds \<open>a\<close>, \<open>b\<close> and \<open>n \<ge> 1\<close>, the block
  returns, and its heights array has one entry per subinterval, the one the
  specification's table gives for the method: \<open>g (x\<^sub>i)\<close> for Left, \<open>g (x\<^sub>i\<^sub>+\<^sub>1)\<close> for
  Right, \<open>g ((x\<^sub>i + x\<^sub>i\<^sub>+\<^sub>1) / 2)\<close> for Midpoint and \<open>(g (x\<^sub>i) + g (x\<^sub>i\<^sub>+\<^sub>1)) / 2\<close> for
  Trapezoid, where \<open>x\<^sub>0, \<dots>, x\<^sub>n\<close> is the partition the block built.
\<close>

theorem heights_follow_rule:
  assumes "1 \<le> n"
  shows "\<exists>r hs. calculations (vectorized g) a b n m = Inr r
           \<and> heights r = Array hs \<and> length hs = nat n
           \<and> length (x_vals r) = nat n + 1
           \<and> (\<forall>i<nat n. hs ! i = spec_height g m (x_vals r) i)"
proof -
  let ?xs = "map (grid a b n) [0..<Suc (nat n)]"
  have len: "length ?xs = Suc (nat n)" by simp
  have "\<forall>i<nat n. heights_list g m ?xs ! i = spec_height g m ?xs i"
    using heights_list_nth[OF len] by blast
  moreover have "length (heights_list g m ?xs) = nat n"
    by (simp add: length_heights_list del: upt_Suc)
  ultimately show ?thesis
    unfolding calculations_vectorized[OF assms] by (simp del: upt_Suc)
qed

theorem heights_follow_rule_witness:
  "(1::int) \<le> 2 \<and>
   (\<exists>r hs. calculations (vectorized (\<lambda>x. x ^ 2)) 0 4 2 Trapezoid = Inr r
      \<and> heights r = Array hs \<and> length hs = 2 \<and> x_vals r = [0, 2, 4]
      \<and> hs = [2, 10])"
proof -
  have h: "(1::int) \<le> 2" by simp
  from heights_follow_rule[OF h, of "\<lambda>x. x ^ 2" 0 4 Trapezoid] trapezoid_example
  show ?thesis by simp
qed

text \<open>
  C2. For bounds \<open>a\<close>, \<open>b\<close> and \<open>n \<ge> 1\<close>, the partition of line 35 has \<open>n + 1\<close>
  entries \<open>x\<^sub>i = a + i \<cdot> \<Delta>x\<close> with \<open>\<Delta>x = (b - a) / n\<close> the width of line 36; its first
  entry is \<open>a\<close> and its last entry is \<open>b\<close>; it is strictly increasing when \<open>a < b\<close>,
  strictly decreasing when \<open>b < a\<close>, and constant when \<open>a = b\<close>.
\<close>

theorem partition_equally_spaced:
  assumes "1 \<le> n"
  shows "\<exists>xs d. linspace a b (n + 1) = Inr xs \<and> py_div (b - a) n = Inr d
           \<and> d = (b - a) / of_int n
           \<and> length xs = nat n + 1
           \<and> (\<forall>i\<le>nat n. xs ! i = a + real i * d)
           \<and> xs ! 0 = a \<and> xs ! nat n = b
           \<and> (a < b \<longrightarrow> sorted_wrt (<) xs)
           \<and> (b < a \<longrightarrow> sorted_wrt (>) xs)
           \<and> (a = b \<longrightarrow> xs = replicate (nat n + 1) a)"
proof -
  let ?xs = "map (grid a b n) [0..<Suc (nat n)]"
  have d: "py_div (b - a) n = Inr ((b - a) / of_int n)"
    using assms by (simp add: py_div_def)
  have nth: "\<forall>i\<le>nat n. ?xs ! i = a + real i * ((b - a) / of_int n)"
  proof (intro allI impI)
    fix i assume "i \<le> nat n"
    then have "i < length [0..<Suc (nat n)]" by simp
    then have "?xs ! i = grid a b n ([0..<Suc (nat n)] ! i)" by (rule nth_map)
    also have "\<dots> = grid a b n i" using \<open>i \<le> nat n\<close> by (simp del: upt_Suc)
    finally show "?xs ! i = a + real i * ((b - a) / of_int n)" by (simp add: grid_def)
  qed
  have first: "?xs ! 0 = a" using nth by simp
  have lst: "?xs ! nat n = b" using nth assms by simp
  have up: "a < b \<longrightarrow> sorted_wrt (<) ?xs"
  proof
    assume "a < b"
    show "sorted_wrt (<) ?xs"
      by (rule sorted_wrt_map_upt) (rule grid_strict_mono[OF assms \<open>a < b\<close>])
  qed
  have down: "b < a \<longrightarrow> sorted_wrt (>) ?xs"
  proof
    assume "b < a"
    show "sorted_wrt (>) ?xs"
      by (rule sorted_wrt_map_upt) (rule grid_strict_antimono[OF assms \<open>b < a\<close>])
  qed
  have const: "a = b \<longrightarrow> ?xs = replicate (nat n + 1) a"
  proof
    assume "a = b"
    then have "grid a b n = (\<lambda>_. a)" by (simp add: grid_def fun_eq_iff)
    then have "?xs = replicate (length [0..<Suc (nat n)]) a"
      by (simp only: map_replicate_const)
    then show "?xs = replicate (nat n + 1) a" by (simp del: upt_Suc replicate_Suc)
  qed
  show ?thesis
    unfolding linspace_grid[OF assms] d
    using nth first lst up down const by (simp del: upt_Suc replicate_Suc)
qed


theorem partition_equally_spaced_witness:
  "(1::int) \<le> 2
   \<and> linspace 0 4 (2 + 1) = Inr [0, 2, 4] \<and> sorted_wrt (<) [0, 2, 4::real]
   \<and> linspace 4 0 (2 + 1) = Inr [4, 2, 0] \<and> sorted_wrt (>) [4, 2, 0::real]
   \<and> linspace 1 1 (2 + 1) = Inr [1, 1, 1::real]
   \<and> py_div (4 - 0) 2 = Inr 2"
proof -
  have h: "(1::int) \<le> 2" by simp
  from partition_equally_spaced[OF h, of 0 4] partition_equally_spaced[OF h, of 4 0]
    partition_equally_spaced[OF h, of 1 1] linspace_examples
  show ?thesis by (simp add: py_div_def)
qed


text \<open>
  C3. For every method, vectorised \<open>g\<close>, bounds and \<open>n \<ge> 1\<close>: each area is its height
  times \<open>\<Delta>x\<close>; the cumulative array is the inclusive running sum of the areas (its
  first entry is the first area, every later entry adds its area to the entry before);
  and the total is its entry \<open>n - 1\<close>.
\<close>

theorem areas_and_running_sums:
  assumes "1 \<le> n"
  shows "\<exists>r hs ar. calculations (vectorized g) a b n m = Inr r
           \<and> heights r = Array hs \<and> areas r = Array ar
           \<and> length hs = nat n \<and> length ar = nat n \<and> length (cumulative r) = nat n
           \<and> (\<forall>i<nat n. ar ! i = hs ! i * dx r)
           \<and> cumulative r ! 0 = ar ! 0
           \<and> (\<forall>i. 0 < i \<and> i < nat n \<longrightarrow> cumulative r ! i = cumulative r ! (i - 1) + ar ! i)
           \<and> total_integral r = cumulative r ! (nat n - 1)"
proof -
  let ?d = "(b - a) / of_int n"
  let ?hs = "heights_list g m (map (grid a b n) [0..<Suc (nat n)])"
  let ?ar = "map (\<lambda>h. h * ?d) ?hs"
  have lh: "length ?hs = nat n" by (simp add: length_heights_list del: upt_Suc)
  then have la: "length ?ar = nat n" by simp
  have pos: "0 < nat n" using assms by simp
  then have ne: "?ar \<noteq> []" using la by auto
  have a: "\<forall>i<nat n. ?ar ! i = ?hs ! i * ?d" using lh by simp
  have c0: "cumsum_list ?ar ! 0 = ?ar ! 0" by (rule cumsum_list_0[OF ne])
  have cs: "\<forall>i. 0 < i \<and> i < nat n \<longrightarrow> cumsum_list ?ar ! i = cumsum_list ?ar ! (i - 1) + ?ar ! i"
  proof (intro allI impI)
    fix i assume i: "0 < i \<and> i < nat n"
    then obtain j where j: "i = Suc j" by (cases i) auto
    with i la have "Suc j < length ?ar" by simp
    from cumsum_list_Suc[OF this] j
    show "cumsum_list ?ar ! i = cumsum_list ?ar ! (i - 1) + ?ar ! i" by simp
  qed
  have "nat n - 1 < length ?ar" using pos la by simp
  then have "cumsum_list ?ar ! (nat n - 1) = sum_list (take (Suc (nat n - 1)) ?ar)"
    by (rule cumsum_list_nth)
  also have "\<dots> = sum_list ?ar" using pos la by simp
  finally have t: "sum_list ?ar = cumsum_list ?ar ! (nat n - 1)" by simp
  show ?thesis
    unfolding calculations_vectorized[OF assms]
    using lh la a c0 cs t by (simp add: length_cumsum_list del: upt_Suc)
qed

theorem areas_and_running_sums_witness:
  "(1::int) \<le> 2 \<and>
   (\<exists>r. calculations (vectorized (\<lambda>x. x ^ 2)) 0 4 2 Trapezoid = Inr r
      \<and> heights r = Array [2, 10] \<and> dx r = 2 \<and> areas r = Array [4, 20]
      \<and> cumulative r = [4, 24] \<and> total_integral r = 24)"
proof -
  have h: "(1::int) \<le> 2" by simp
  from areas_and_running_sums[OF h, of "\<lambda>x. x ^ 2" 0 4 Trapezoid] trapezoid_example
  show ?thesis by simp
qed


text \<open>
  C4. For every method, vectorised \<open>g\<close>, bounds and \<open>n \<ge> 1\<close>, the total, which is the
  last running sum of the areas, equals \<open>\<Delta>x\<close> times the sum of the heights.
\<close>

theorem total_is_width_times_heights:
  assumes "1 \<le> n"
  shows "\<exists>r hs. calculations (vectorized g) a b n m = Inr r
           \<and> heights r = Array hs \<and> length hs = nat n
           \<and> total_integral r = last (cumulative r)
           \<and> total_integral r = dx r * sum_list hs"
proof -
  let ?d = "(b - a) / of_int n"
  let ?hs = "heights_list g m (map (grid a b n) [0..<Suc (nat n)])"
  let ?ar = "map (\<lambda>h. h * ?d) ?hs"
  have lh: "length ?hs = nat n" by (simp add: length_heights_list del: upt_Suc)
  then have "?ar \<noteq> []" using assms by auto
  then have l: "last (cumsum_list ?ar) = sum_list ?ar" by (rule last_cumsum_list)
  have s: "sum_list ?ar = ?d * sum_list ?hs" by (rule sum_list_scaled)
  show ?thesis
    unfolding calculations_vectorized[OF assms]
    using lh l s by (simp del: upt_Suc)
qed

theorem total_is_width_times_heights_witness:
  "(1::int) \<le> 2 \<and>
   (\<exists>r. calculations (vectorized (\<lambda>x. x ^ 2)) 0 4 2 Trapezoid = Inr r
      \<and> heights r = Array [2, 10] \<and> dx r = 2 \<and> total_integral r = 2 * (2 + 10))"
proof -
  have h: "(1::int) \<le> 2" by simp
  from total_is_width_times_heights[OF h, of "\<lambda>x. x ^ 2" 0 4 Trapezoid] trapezoid_example
  show ?thesis by simp
qed


text \<open>
  C5. The claim: for every method and every input with \<open>n \<ge> 1\<close>, the heights, the areas
  and the cumulative array have exactly \<open>n\<close> entries. The script breaks it on a constant
  function text: the lambdified function of \<^verbatim>\<open>5\<close> returns the Python scalar \<open>5\<close>
  whatever the array it is given, so on \<open>[0, 4]\<close> with \<open>n = 2\<close> the heights and the
  areas are scalars, the cumulative array has one entry instead of two, and the total
  is \<open>5 \<cdot> \<Delta>x = 10\<close>. A function that returns one \<open>5\<close> per abscissa gives two
  heights, two areas, two running sums and the total \<open>20\<close>.
\<close>

theorem constant_expression_is_scalar:
  "script (Inr (Number 5)) 0 4 2 Left
     = Inr \<lparr>x_vals = [0, 2, 4], dx = 2, heights = Scalar 5, areas = Scalar 10,
            cumulative = [10], total_integral = 10\<rparr>
   \<and> calculations (vectorized (\<lambda>_. 5)) 0 4 2 Left
     = Inr \<lparr>x_vals = [0, 2, 4], dx = 2, heights = Array [5, 5], areas = Array [10, 10],
            cumulative = [10, 20], total_integral = 20\<rparr>"
  by (simp add: script_def f_lambdified_def lambdify_def calculations_def linspace_def
      py_div_def vectorized_def last_entry_def Let_def upt_conv_Cons)

text \<open>
  The part of the length invariant the script keeps: for every method, bounds and
  \<open>n \<ge> 1\<close>, on a callable that returns one value per abscissa (a vectorised \<open>g\<close>), the
  heights, the areas and the cumulative array have exactly \<open>n\<close> entries and the
  partition has \<open>n + 1\<close>.
\<close>

theorem array_lengths:
  assumes "1 \<le> n"
  shows "\<exists>r hs ar. calculations (vectorized g) a b n m = Inr r
           \<and> heights r = Array hs \<and> areas r = Array ar
           \<and> length hs = nat n \<and> length ar = nat n
           \<and> length (cumulative r) = nat n
           \<and> length (x_vals r) = nat n + 1"
  unfolding calculations_vectorized[OF assms]
  by (simp add: length_heights_list length_cumsum_list del: upt_Suc)

theorem array_lengths_witness:
  "(1::int) \<le> 2 \<and>
   (\<exists>r hs ar. calculations (vectorized (\<lambda>x. x ^ 2)) 0 4 2 Trapezoid = Inr r
      \<and> heights r = Array hs \<and> areas r = Array ar
      \<and> length hs = 2 \<and> length ar = 2 \<and> length (cumulative r) = 2
      \<and> length (x_vals r) = 3)"
proof -
  have h: "(1::int) \<le> 2" by simp
  from array_lengths[OF h, of "\<lambda>x. x ^ 2" 0 4 Trapezoid]
  show ?thesis by simp
qed


text \<open>
  The part of C6 the script does: when \<^verbatim>\<open>sp.sympify\<close> raises \<^verbatim>\<open>SympifyError\<close> or
  \<^verbatim>\<open>TypeError\<close>, the zero function is substituted, and for \<open>n \<ge> 1\<close> the script returns
  with total \<open>0\<close> for any bounds and method.
\<close>

theorem fallback_total_zero:
  assumes "sympified = Inl SympifyError \<or> sympified = Inl TypeError" and "1 \<le> n"
  shows "f_lambdified sympified = Inr zeros_like
         \<and> (\<exists>r. script sympified a b n m = Inr r \<and> total_integral r = 0)"
proof -
  have f: "f_lambdified sympified = Inr zeros_like"
    using assms(1) by (auto simp: f_lambdified_def)
  let ?d = "(b - a) / of_int n"
  let ?hs = "heights_list (\<lambda>_. 0) m (map (grid a b n) [0..<Suc (nat n)])"
  have "sum_list (map (\<lambda>h. h * ?d) ?hs) = ?d * sum_list ?hs" by (rule sum_list_scaled)
  also have "sum_list ?hs = 0" by (rule sum_list_all_zero) (rule heights_list_zero)
  finally have z: "sum_list (map (\<lambda>h. h * ?d) ?hs) = 0" by simp
  show ?thesis
    unfolding script_def f zeros_like_vectorized
    using z by (simp add: calculations_vectorized[OF assms(2)] del: upt_Suc)
qed

theorem fallback_total_zero_witness:
  "(1::int) \<le> 2 \<and> f_lambdified (Inl SympifyError) = Inr zeros_like
   \<and> (\<exists>r. script (Inl SympifyError) 0 4 2 Trapezoid = Inr r \<and> total_integral r = 0)"
proof -
  have h: "(1::int) \<le> 2" by simp
  from fallback_total_zero[OF _ h, of "Inl SympifyError" 0 4 Trapezoid]
  show ?thesis by simp
qed

text \<open>
  C7, as the script has it. The claim: \<open>n = 0\<close> is rejected before any computation, no
  partition is built and nothing is divided by zero. The script has no such check:
  the slider keeps \<open>n\<close> between 1 and 500, and for those values the block returns on a
  vectorised function. Reached with \<open>n = 0\<close>, the block builds the one-entry partition
  \<open>[a]\<close> at line 35 and then raises \<^verbatim>\<open>ZeroDivisionError\<close> at line 36, whatever the
  callable, bounds and method.
\<close>

theorem slider_keeps_n_zero_out:
  "(slider 1 500 n \<longrightarrow> n \<noteq> 0 \<and> (\<exists>r. calculations (vectorized g) a b n m = Inr r))
   \<and> linspace a b (0 + 1) = Inr [a]
   \<and> calculations f a b 0 m = Inl ZeroDivisionError"
proof -
  have "n \<noteq> 0 \<and> (\<exists>r. calculations (vectorized g) a b n m = Inr r)" if "slider 1 500 n"
  proof -
    from that have n: "1 \<le> n" by (simp add: slider_def)
    then show ?thesis using calculations_vectorized[OF n, of g a b m] by auto
  qed
  then show ?thesis
    using linspace_one_sample[of a b] calculations_n_zero[of f a b m] by blast
qed

theorem slider_keeps_n_zero_out_witness:
  "slider 1 500 2
   \<and> (\<exists>r. calculations (vectorized (\<lambda>x. x ^ 2)) 0 4 2 Trapezoid = Inr r)
   \<and> linspace 0 4 (0 + 1) = Inr [0]
   \<and> calculations (vectorized (\<lambda>x. x ^ 2)) 0 4 0 Trapezoid = Inl ZeroDivisionError"
proof -
  have h: "slider 1 500 2" by (simp add: slider_def)
  from slider_keeps_n_zero_out[of 2 "\<lambda>x. x ^ 2" 0 4 Trapezoid "vectorized (\<lambda>x. x ^ 2)"] h
  show ?thesis by simp
qed

text \<open>
  The claim C7 fails at \<open>n = 0\<close> on \<^verbatim>\<open>x**2\<close> over \<open>[0, 5]\<close>: the partition \<open>[0]\<close> is
  built, and the exception is the division's.
\<close>

theorem n_zero_divides_by_zero:
  "linspace 0 5 (0 + 1) = Inr [0]
   \<and> calculations (vectorized (\<lambda>x. x ^ 2)) 0 5 0 Left = Inl ZeroDivisionError"
  by (simp add: calculations_def linspace_def py_div_def Let_def)

text \<open>
  C8. For a vectorised \<open>g\<close>, \<open>n \<ge> 1\<close> and \<open>b = a\<close>, the block returns with \<open>\<Delta>x = 0\<close>,
  every one of the \<open>n + 1\<close> partition entries equal to \<open>a\<close>, every one of the \<open>n\<close>
  areas equal to \<open>0\<close>, and total \<open>0\<close>.
\<close>

theorem degenerate_interval:
  assumes "1 \<le> n"
  shows "\<exists>r. calculations (vectorized g) a a n m = Inr r
           \<and> dx r = 0
           \<and> x_vals r = replicate (nat n + 1) a
           \<and> areas r = Array (replicate (nat n) 0)
           \<and> total_integral r = 0"
proof -
  let ?xs = "map (grid a a n) [0..<Suc (nat n)]"
  let ?hs = "heights_list g m ?xs"
  have "grid a a n = (\<lambda>_. a)" by (simp add: grid_def fun_eq_iff)
  then have "?xs = replicate (length [0..<Suc (nat n)]) a"
    by (simp only: map_replicate_const)
  then have x: "?xs = replicate (nat n + 1) a" by (simp del: upt_Suc replicate_Suc)
  have lh: "length ?hs = nat n" by (simp add: length_heights_list del: upt_Suc)
  have "map (\<lambda>h. h * 0) ?hs = replicate (length ?hs) 0"
    by (simp only: mult_zero_right map_replicate_const)
  then have ar: "map (\<lambda>h. h * 0) ?hs = replicate (nat n) 0" using lh by simp
  show ?thesis
    unfolding calculations_vectorized[OF assms]
    using x ar by (simp add: sum_list_replicate del: upt_Suc replicate_Suc)
qed

theorem degenerate_interval_witness:
  "(1::int) \<le> 2 \<and>
   (\<exists>r. calculations (vectorized (\<lambda>x. x ^ 2)) 3 3 2 Midpoint = Inr r
     \<and> dx r = 0 \<and> x_vals r = [3, 3, 3] \<and> areas r = Array [0, 0] \<and> total_integral r = 0)"
proof -
  have h: "(1::int) \<le> 2" by simp
  from degenerate_interval[OF h, of "\<lambda>x. x ^ 2" 3 Midpoint]
  show ?thesis by (simp add: numeral_2_eq_2 numeral_3_eq_3)
qed

text \<open>
  C10. For a vectorised \<open>g\<close>, bounds and \<open>n \<ge> 1\<close>, the three methods return, every
  Trapezoid height is the mean of the Left and the Right height of its subinterval,
  and the Trapezoid total is the mean of the Left total and the Right total.
\<close>

theorem trapezoid_is_mean_of_left_and_right:
  assumes "1 \<le> n"
  shows "\<exists>rt rl rr ht hl hr.
           calculations (vectorized g) a b n Trapezoid = Inr rt
           \<and> calculations (vectorized g) a b n Left = Inr rl
           \<and> calculations (vectorized g) a b n Right = Inr rr
           \<and> heights rt = Array ht \<and> heights rl = Array hl \<and> heights rr = Array hr
           \<and> ht = map (\<lambda>v. v / 2) (map2 (+) hl hr)
           \<and> total_integral rt = (total_integral rl + total_integral rr) / 2"
proof -
  let ?d = "(b - a) / of_int n"
  let ?xs = "map (grid a b n) [0..<Suc (nat n)]"
  let ?hl = "map g (butlast ?xs)" and ?hr = "map g (tl ?xs)"
  have len: "length ?hl = length ?hr" by simp
  have "sum_list (map (\<lambda>h. h * ?d) (map (\<lambda>v. v / 2) (map2 (+) ?hl ?hr)))
        = ?d * (sum_list (map2 (+) ?hl ?hr) / 2)"
    by (simp only: sum_list_scaled sum_list_halved)
  also have "\<dots> = ?d * ((sum_list ?hl + sum_list ?hr) / 2)"
    by (simp only: sum_list_map2_add[OF len])
  also have "\<dots> = (sum_list (map (\<lambda>h. h * ?d) ?hl) + sum_list (map (\<lambda>h. h * ?d) ?hr)) / 2"
    by (simp only: sum_list_scaled) (simp add: algebra_simps)
  finally have t: "sum_list (map (\<lambda>h. h * ?d) (heights_list g Trapezoid ?xs))
        = (sum_list (map (\<lambda>h. h * ?d) (heights_list g Left ?xs))
           + sum_list (map (\<lambda>h. h * ?d) (heights_list g Right ?xs))) / 2"
    by (simp only: heights_list.simps)
  show ?thesis
    unfolding calculations_vectorized[OF assms]
    using t by (simp del: upt_Suc)
qed

theorem trapezoid_is_mean_of_left_and_right_witness:
  "(1::int) \<le> 2 \<and>
   (\<exists>rt rl rr.
      calculations (vectorized (\<lambda>x. x ^ 2)) 0 4 2 Trapezoid = Inr rt
      \<and> calculations (vectorized (\<lambda>x. x ^ 2)) 0 4 2 Left = Inr rl
      \<and> calculations (vectorized (\<lambda>x. x ^ 2)) 0 4 2 Right = Inr rr
      \<and> total_integral rl = 8 \<and> total_integral rr = 40 \<and> total_integral rt = (8 + 40) / 2)"
proof -
  have h: "(1::int) \<le> 2" by simp
  from trapezoid_is_mean_of_left_and_right[OF h, of "\<lambda>x. x ^ 2" 0 4] left_right_examples
  show ?thesis by auto
qed

end
